theory Spec2Isabelle
  imports Main
begin

section \<open>quick::variant: a shallow embedding of variant.hpp\<close>

text \<open>
  The header \<^verbatim>\<open>include/quick/experiments/variant.hpp\<close> defines a tagged union
  \<^verbatim>\<open>variant<Ts...>\<close> with two private members,
  \<^verbatim>\<open>std::unique_ptr<AbstractBaseType> ptr\<close> and \<^verbatim>\<open>std::size_t selected_type_ = 0\<close>.
  The embedding keeps the two members as a record, the free store as an explicit heap
  (the payload lives behind \<^verbatim>\<open>ptr\<close>, and claims speak about when it is constructed
  and destroyed), exceptions as values, and the compile-time type list as a HOL list of
  type names.  Indices are \<^verbatim>\<open>std::size_t\<close> template constants no larger than the
  length of the type list, so \<open>nat\<close> stands for them (no arithmetic on them can wrap).
\<close>

subsection \<open>The compile-time type list\<close>

text \<open>
  \<^verbatim>\<open>TypeListImpl<i, T, Ts...>\<close> derives from \<^verbatim>\<open>TypeListImpl<i+1, Ts...>\<close>, and
  \<^verbatim>\<open>TypeListImpl<i>\<close> is the empty end of the chain.  A class is represented by the
  list of template argument lists of the class itself and of all its bases, in
  derivation order.
\<close>

fun TypeListImpl :: "nat \<Rightarrow> 't list \<Rightarrow> (nat \<times> 't list) list" where
  "TypeListImpl i [] = [(i, [])]"
| "TypeListImpl i (T # Ts) = (i, T # Ts) # TypeListImpl (i + 1) Ts"

definition TypeList :: "'t list \<Rightarrow> (nat \<times> 't list) list" where
  "TypeList Ts = TypeListImpl 0 Ts"

text \<open>
  \<^verbatim>\<open>GetNthTypeFromTypeListFunc<index>(TypeListImpl<index, T, Ts...>&)\<close>: template
  argument deduction binds the parameter to the base whose first argument is
  \<open>index\<close> and that has at least one type argument \<open>T\<close>; the result type is that
  \<open>T\<close>.  When no base fits, deduction fails and the program does not compile: \<open>None\<close>.
\<close>

fun GetNthTypeFromTypeListFunc :: "nat \<Rightarrow> (nat \<times> 't list) list \<Rightarrow> 't option" where
  "GetNthTypeFromTypeListFunc index [] = None"
| "GetNthTypeFromTypeListFunc index ((i, []) # bases) = GetNthTypeFromTypeListFunc index bases"
| "GetNthTypeFromTypeListFunc index ((i, T # Ts) # bases) =
     (if i = index then Some T else GetNthTypeFromTypeListFunc index bases)"

definition GetNthType :: "nat \<Rightarrow> 't list \<Rightarrow> 't option" where
  "GetNthType index Ts = GetNthTypeFromTypeListFunc index (TypeList Ts)"

subsection \<open>The free store and the type-erased cell\<close>

type_synonym addr = nat

text \<open>
  \<^verbatim>\<open>TypeWrapper<T>\<close> derives from \<^verbatim>\<open>AbstractBaseType\<close> (virtual destructor) and has
  one member, \<^verbatim>\<open>T object_\<close> (here \<open>object_field\<close>: a constant's name cannot end
  in an underscore).  A cell records its dynamic type \<^verbatim>\<open>TypeWrapper<T>\<close> by the name
  of \<open>T\<close>.
\<close>

datatype ('t, 'v) TypeWrapper = TypeWrapper (wrapped_type: 't) (object_field: 'v)

datatype exn = bad_alloc | runtime_error string | constructor_error string

datatype event = Constructed addr | Destroyed addr

text \<open>
  The heap: the live cells, the next unused address, the number of cells the allocator
  can still hand out (\<^verbatim>\<open>operator new\<close> throws \<^verbatim>\<open>std::bad_alloc\<close> when there is none),
  and a log of the payload constructions and destructions in the order they happened.
\<close>

record ('t, 'v) heap =
  cells :: "addr \<rightharpoonup> ('t, 'v) TypeWrapper"
  fresh :: addr
  room :: nat
  events :: "event list"

definition empty_heap :: "nat \<Rightarrow> ('t, 'v) heap" where
  "empty_heap r = \<lparr>cells = Map.empty, fresh = 0, room = r, events = []\<rparr>"

text \<open>
  \<^verbatim>\<open>new TypeWrapper<T>(args...)\<close>: allocate, then run the constructor
  \<^verbatim>\<open>object_(args...)\<close>, given as the parameter \<open>ctor\<close>.  If the constructor throws, the
  memory is given back and the exception propagates; the heap is as before.
\<close>

definition new_TypeWrapper ::
  "('t \<Rightarrow> 'a \<Rightarrow> exn + 'v) \<Rightarrow> 't \<Rightarrow> 'a \<Rightarrow> ('t, 'v) heap \<Rightarrow> exn + (addr \<times> ('t, 'v) heap)" where
  "new_TypeWrapper ctor T args h =
     (if room h = 0 then Inl bad_alloc
      else case ctor T args of
        Inl e \<Rightarrow> Inl e
      | Inr x \<Rightarrow> Inr (fresh h,
          h\<lparr>cells := (cells h)(fresh h \<mapsto> TypeWrapper T x),
            fresh := Suc (fresh h),
            room := room h - 1,
            events := events h @ [Constructed (fresh h)]\<rparr>))"

text \<open>
  \<^verbatim>\<open>delete p\<close> through the \<^verbatim>\<open>AbstractBaseType\<close> pointer: the virtual destructor
  destroys the wrapper and its \<^verbatim>\<open>object_\<close>, and the memory is released.
\<close>

definition delete :: "addr \<Rightarrow> ('t, 'v) heap \<Rightarrow> ('t, 'v) heap" where
  "delete a h =
     h\<lparr>cells := (cells h)(a := None),
       room := Suc (room h),
       events := events h @ [Destroyed a]\<rparr>"

subsection \<open>The variant\<close>

record variant =
  ptr :: "addr option"
  selected_type_field :: nat

definition default_variant :: variant where
  "default_variant = \<lparr>ptr = None, selected_type_field = 0\<rparr>"

type_synonym ('t, 'v) state = "variant \<times> ('t, 'v) heap"

text \<open>
  \<^verbatim>\<open>std::unique_ptr::reset(p)\<close>: the stored pointer becomes \<open>p\<close>, then the object the
  old pointer owned, if any, is deleted.
\<close>

definition reset :: "addr option \<Rightarrow> ('t, 'v) state \<Rightarrow> ('t, 'v) state" where
  "reset p s =
     (let (v, h) = s; old = ptr v
      in (v\<lparr>ptr := p\<rparr>, case old of None \<Rightarrow> h | Some a \<Rightarrow> delete a h))"

text \<open>
  The result of a member function template instantiated at an index: the program is
  ill-formed (it does not compile, nothing runs), the behaviour is undefined (a null
  \<^verbatim>\<open>ptr\<close> dereferenced, or a \<^verbatim>\<open>static_cast\<close> to a wrapper type the cell does not
  have), an exception leaves the call, or the call returns.
\<close>

datatype ('r, 's) outcome = IllFormed | Undefined | Throws exn 's | Returns 'r 's

text \<open>
  \<^verbatim>\<open>static_cast<NthTypeWrapper<index>&>(*ptr).object_\<close>: the reference returned is the
  object inside the cell \<^verbatim>\<open>ptr\<close> owns; it is named by the address of the cell.
\<close>

definition object_ref :: "'t \<Rightarrow> ('t, 'v) state \<Rightarrow> (addr, ('t, 'v) state) outcome" where
  "object_ref T s =
     (let (v, h) = s
      in case ptr v of
        None \<Rightarrow> Undefined
      | Some a \<Rightarrow>
          (case cells h a of
             None \<Rightarrow> Undefined
           | Some w \<Rightarrow> if wrapped_type w = T then Returns a s else Undefined))"

text \<open>Reading through a reference: the \<^verbatim>\<open>object_\<close> of the cell, while the cell is live.\<close>

definition deref :: "('t, 'v) heap \<Rightarrow> addr \<Rightarrow> 'v option" where
  "deref h a = map_option object_field (cells h a)"

text \<open>
  \<^verbatim>\<open>template<std::size_t index, typename... Args> NthType<index>& at(Args&&... args)\<close>.
  In \<^verbatim>\<open>ptr.reset(new NthTypeWrapper<index>(args...))\<close> the argument is evaluated
  first: the new cell is allocated and constructed, and only then \<^verbatim>\<open>reset\<close> runs.  An
  exception from \<^verbatim>\<open>new\<close> leaves \<^verbatim>\<open>at\<close> before \<^verbatim>\<open>reset\<close> and before the assignment to
  \<^verbatim>\<open>selected_type_\<close>.
\<close>

definition at ::
  "'t list \<Rightarrow> ('t \<Rightarrow> 'a \<Rightarrow> exn + 'v) \<Rightarrow> nat \<Rightarrow> 'a \<Rightarrow> ('t, 'v) state
     \<Rightarrow> (addr, ('t, 'v) state) outcome" where
  "at Ts ctor index args s =
     (case GetNthType index Ts of
        None \<Rightarrow> IllFormed
      | Some T \<Rightarrow>
          (let (v, h) = s
           in if ptr v = None \<or> selected_type_field v \<noteq> index then
                (case new_TypeWrapper ctor T args h of
                   Inl e \<Rightarrow> Throws e s
                 | Inr (p, h1) \<Rightarrow>
                     (let (v2, h2) = reset (Some p) (v, h1)
                      in object_ref T (v2\<lparr>selected_type_field := index\<rparr>, h2)))
              else object_ref T (v\<lparr>selected_type_field := index\<rparr>, h)))"

text \<open>
  \<^verbatim>\<open>template<std::size_t index> const NthType<index>& at() const\<close>, which throws
  a \<^verbatim>\<open>std::runtime_error\<close> with the message below.
\<close>

definition const_access_message :: string where
  "const_access_message =
     ''[quick::variant]: const access is now allowed if corrosponding type is not already set''"

definition at_const ::
  "'t list \<Rightarrow> nat \<Rightarrow> ('t, 'v) state \<Rightarrow> (addr, ('t, 'v) state) outcome" where
  "at_const Ts index s =
     (case GetNthType index Ts of
        None \<Rightarrow> IllFormed
      | Some T \<Rightarrow>
          (let (v, h) = s
           in if ptr v = None \<or> selected_type_field v \<noteq> index then
                Throws (runtime_error const_access_message) s
              else object_ref T s))"

definition clear :: "('t, 'v) state \<Rightarrow> ('t, 'v) state" where
  "clear s = reset None s"

definition initialized :: "variant \<Rightarrow> bool" where
  "initialized v = (ptr v \<noteq> None)"

definition selected_type :: "'t list \<Rightarrow> variant \<Rightarrow> nat" where
  "selected_type Ts v = (if ptr v = None then length Ts else selected_type_field v)"

subsection \<open>Programs over a variant\<close>

text \<open>
  A client's calls on one variant object.  The index of \<^verbatim>\<open>at<index>\<close> is a template
  argument, so it is part of the call; \<open>AtConstruct\<close> is the non-const \<^verbatim>\<open>at\<close>,
  \<open>AtReadonly\<close> the const one, \<open>IsInitialized\<close> is \<^verbatim>\<open>initialized()\<close> and
  \<open>ActiveIndex\<close> is \<^verbatim>\<open>selected_type()\<close>.
\<close>

datatype 'a call = AtConstruct nat 'a | AtReadonly nat | Clear | IsInitialized | ActiveIndex

text \<open>
  The state after a call.  A caller may catch an exception and go on, so a throwing
  call continues from the state at the throw.  There is no state after a call that does
  not compile or whose behaviour is undefined.  The two const observers leave the state
  as it is.
\<close>

fun after :: "(addr, 's) outcome \<Rightarrow> 's option" where
  "after IllFormed = None"
| "after Undefined = None"
| "after (Throws e s) = Some s"
| "after (Returns r s) = Some s"

fun exec ::
  "'t list \<Rightarrow> ('t \<Rightarrow> 'a \<Rightarrow> exn + 'v) \<Rightarrow> 'a call \<Rightarrow> ('t, 'v) state \<Rightarrow> ('t, 'v) state option" where
  "exec Ts ctor (AtConstruct index args) s = after (at Ts ctor index args s)"
| "exec Ts ctor (AtReadonly index) s = after (at_const Ts index s)"
| "exec Ts ctor Clear s = Some (clear s)"
| "exec Ts ctor IsInitialized s = Some s"
| "exec Ts ctor ActiveIndex s = Some s"

fun run ::
  "'t list \<Rightarrow> ('t \<Rightarrow> 'a \<Rightarrow> exn + 'v) \<Rightarrow> 'a call list \<Rightarrow> ('t, 'v) state \<Rightarrow> ('t, 'v) state option" where
  "run Ts ctor [] s = Some s"
| "run Ts ctor (c # cs) s =
     (case exec Ts ctor c s of None \<Rightarrow> None | Some s' \<Rightarrow> run Ts ctor cs s')"

text \<open>A call compiles when its index, if it has one, is below the number of types.\<close>

fun compiles :: "nat \<Rightarrow> 'a call \<Rightarrow> bool" where
  "compiles N (AtConstruct index args) = (index < N)"
| "compiles N (AtReadonly index) = (index < N)"
| "compiles N c = True"

subsection \<open>Observing the log\<close>

text \<open>
  The payloads live after a sequence of events, and the largest number of payloads
  that were live together at any moment of it.
\<close>

fun apply_event :: "event \<Rightarrow> addr list \<Rightarrow> addr list" where
  "apply_event (Constructed a) live = a # live"
| "apply_event (Destroyed a) live = removeAll a live"

fun live_from :: "addr list \<Rightarrow> event list \<Rightarrow> addr list" where
  "live_from live [] = live"
| "live_from live (e # es) = live_from (apply_event e live) es"

fun peak_from :: "addr list \<Rightarrow> event list \<Rightarrow> nat" where
  "peak_from live [] = length live"
| "peak_from live (e # es) = max (length live) (peak_from (apply_event e live) es)"

definition live_after :: "event list \<Rightarrow> addr list" where
  "live_after es = live_from [] es"

definition peak_live :: "event list \<Rightarrow> nat" where
  "peak_live es = peak_from [] es"

subsection \<open>Well-formed states\<close>

text \<open>
  What every state reached from a default-constructed variant on an empty heap
  satisfies: the cell \<^verbatim>\<open>ptr\<close> owns is live and its wrapper is the one of the type at
  \<^verbatim>\<open>selected_type_\<close>; nothing else is live; live addresses are below the next unused
  one; the log agrees with the heap.
\<close>

definition cell_typed :: "'t list \<Rightarrow> ('t, 'v) state \<Rightarrow> bool" where
  "cell_typed Ts s =
     (let (v, h) = s
      in case ptr v of
        None \<Rightarrow> True
      | Some a \<Rightarrow>
          (case cells h a of
             None \<Rightarrow> False
           | Some w \<Rightarrow> GetNthType (selected_type_field v) Ts = Some (wrapped_type w)))"

definition wf :: "'t list \<Rightarrow> ('t, 'v) state \<Rightarrow> bool" where
  "wf Ts s =
     (let (v, h) = s
      in cell_typed Ts s
         \<and> dom (cells h) = set_option (ptr v)
         \<and> (\<forall>a \<in> set_option (ptr v). a < fresh h)
         \<and> live_after (events h) = (case ptr v of None \<Rightarrow> [] | Some a \<Rightarrow> [a])
         \<and> peak_live (events h) \<le> 2)"

subsection \<open>An instance: a variant over int and string\<close>

text \<open>
  The catalog \<^verbatim>\<open>variant<int, std::string>\<close>, used to evaluate the operations on
  concrete inputs.  A payload is constructed from one argument list: an \<^verbatim>\<open>int\<close> from
  an integer, a \<^verbatim>\<open>std::string\<close> from a character array or from a count and a
  character; the latter throws \<^verbatim>\<open>std::length_error\<close> when the count exceeds
  \<^verbatim>\<open>max_size()\<close>, which is implementation-defined and fixed small here so that the
  throwing path can be evaluated.  The remaining combinations have no matching
  constructor and would not compile; they are mapped to an exception only to keep
  \<open>construct\<close> total, and nothing below evaluates them.
\<close>

datatype cpp_type = cpp_int | cpp_string

datatype cpp_value = IntVal int | StringVal string

datatype cpp_arg = IntArg int | CharsArg string | FillArg nat char

definition max_size :: nat where
  "max_size = 4"

fun construct :: "cpp_type \<Rightarrow> cpp_arg \<Rightarrow> exn + cpp_value" where
  "construct cpp_int (IntArg n) = Inr (IntVal n)"
| "construct cpp_string (CharsArg cs) = Inr (StringVal cs)"
| "construct cpp_string (FillArg n c) =
     (if max_size < n then Inl (constructor_error ''length_error'')
      else Inr (StringVal (replicate n c)))"
| "construct T a = Inl (constructor_error ''no matching constructor'')"

definition int_string :: "cpp_type list" where
  "int_string = [cpp_int, cpp_string]"

definition start :: "nat \<Rightarrow> (cpp_type, cpp_value) state" where
  "start r = (default_variant, empty_heap r)"

text \<open>
  The state after \<^verbatim>\<open>at<0>(5)\<close> on a fresh variant with room for two cells, and the
  state after \<^verbatim>\<open>at<1>("hello")\<close> on a fresh variant with room for one.
\<close>

definition five :: "(cpp_type, cpp_value) state" where
  "five =
     (\<lparr>ptr = Some 0, selected_type_field = 0\<rparr>,
      \<lparr>cells = [0 \<mapsto> TypeWrapper cpp_int (IntVal 5)], fresh = 1, room = 1,
       events = [Constructed 0]\<rparr>)"

definition hello :: "(cpp_type, cpp_value) state" where
  "hello =
     (\<lparr>ptr = Some 0, selected_type_field = 1\<rparr>,
      \<lparr>cells = [0 \<mapsto> TypeWrapper cpp_string (StringVal ''hello'')], fresh = 1, room = 0,
       events = [Constructed 0]\<rparr>)"

subsection \<open>Type lookup\<close>

lemma GetNthTypeFromTypeListFunc_chain:
  "GetNthTypeFromTypeListFunc index (TypeListImpl i Ts) =
     (if i \<le> index \<and> index < i + length Ts then Some (Ts ! (index - i)) else None)"
proof (induction Ts arbitrary: i)
  case Nil
  show ?case by simp
next
  case (Cons T Ts)
  show ?case
  proof (cases "i = index")
    case True
    then show ?thesis by simp
  next
    case False
    then show ?thesis
      using Cons.IH [of "i + 1"] by (auto simp: nth_Cons')
  qed
qed

lemma GetNthType_nth:
  "GetNthType index Ts = (if index < length Ts then Some (Ts ! index) else None)"
  by (simp add: GetNthType_def TypeList_def GetNthTypeFromTypeListFunc_chain)

subsection \<open>The log\<close>

lemma live_from_append: "live_from live (es @ es') = live_from (live_from live es) es'"
  by (induction es arbitrary: live) simp_all

lemma peak_from_append:
  "peak_from live (es @ es') = max (peak_from live es) (peak_from (live_from live es) es')"
proof (induction es arbitrary: live)
  case Nil
  show ?case by (cases es') simp_all
next
  case (Cons e es)
  then show ?case by simp
qed

subsection \<open>The three paths through the non-const at\<close>

lemma GetNthType_Some: "GetNthType index Ts = Some T \<longleftrightarrow> index < length Ts \<and> Ts ! index = T"
  by (auto simp: GetNthType_nth)

lemma at_reuse:
  assumes "GetNthType index Ts = Some T" "ptr v = Some a" "selected_type_field v = index"
    "cells h a = Some w" "wrapped_type w = T"
  shows "at Ts ctor index args (v, h) = Returns a (v, h)"
  using assms by (simp add: at_def object_ref_def)

lemma at_construct_empty:
  assumes "GetNthType index Ts = Some T" "ptr v = None" "0 < room h" "ctor T args = Inr x"
  shows "at Ts ctor index args (v, h) =
           Returns (fresh h)
             (v\<lparr>ptr := Some (fresh h), selected_type_field := index\<rparr>,
              h\<lparr>cells := (cells h)(fresh h \<mapsto> TypeWrapper T x), fresh := Suc (fresh h),
                room := room h - 1, events := events h @ [Constructed (fresh h)]\<rparr>)"
  using assms by (simp add: at_def object_ref_def new_TypeWrapper_def reset_def)

lemma at_construct_switch:
  assumes "GetNthType index Ts = Some T" "ptr v = Some a" "selected_type_field v \<noteq> index"
    "a \<noteq> fresh h" "0 < room h" "ctor T args = Inr x"
  shows "at Ts ctor index args (v, h) =
           Returns (fresh h)
             (v\<lparr>ptr := Some (fresh h), selected_type_field := index\<rparr>,
              h\<lparr>cells := ((cells h)(fresh h \<mapsto> TypeWrapper T x))(a := None),
                fresh := Suc (fresh h),
                room := room h,
                events := events h @ [Constructed (fresh h), Destroyed a]\<rparr>)"
  using assms by (simp add: at_def object_ref_def new_TypeWrapper_def reset_def delete_def)

lemma at_throws_same: "at Ts ctor index args s = Throws e s' \<Longrightarrow> s' = s"
  by (auto simp: at_def object_ref_def Let_def split: option.splits prod.splits if_splits sum.splits)

lemma at_const_same: "at_const Ts index s = Throws e s' \<or> at_const Ts index s = Returns r s' \<Longrightarrow> s' = s"
  by (auto simp: at_const_def object_ref_def Let_def split: option.splits prod.splits if_splits sum.splits)


subsection \<open>Well-formedness is kept by every call that compiles\<close>

lemma wf_start: "wf Ts (default_variant, empty_heap r)"
  by (simp add: wf_def cell_typed_def default_variant_def empty_heap_def live_after_def peak_live_def)

lemma dom_single_upd: "dom m = {a} \<Longrightarrow> m(a := None) = Map.empty"
  by (metis Diff_cancel dom_eq_empty_conv dom_fun_upd)

lemma wf_clear: "wf Ts s \<Longrightarrow> wf Ts (clear s)"
  by (cases s)
     (auto simp: dom_single_upd wf_def cell_typed_def clear_def reset_def delete_def live_after_def peak_live_def
        live_from_append peak_from_append split: option.splits)

lemma wf_at:
  assumes "wf Ts s" "index < length Ts"
  shows "\<exists>s'. after (at Ts ctor index args s) = Some s' \<and> wf Ts s'"
proof -
  obtain v h where s: "s = (v, h)" by (cases s)
  have T: "GetNthType index Ts = Some (Ts ! index)"
    using assms(2) by (simp add: GetNthType_nth)
  show ?thesis
  proof (cases "new_TypeWrapper ctor (Ts ! index) args h")
    case (Inl e)
    show ?thesis
    proof (cases "ptr v = None \<or> selected_type_field v \<noteq> index")
      case True
      then have "at Ts ctor index args s = Throws e s"
        using T Inl by (auto simp: at_def s)
      then show ?thesis using assms(1) by simp
    next
      case False
      then obtain a where a: "ptr v = Some a" "selected_type_field v = index" by auto
      then obtain w where w: "cells h a = Some w" "wrapped_type w = Ts ! index"
        using assms(1) T by (auto simp: wf_def cell_typed_def s split: option.splits)
      have "at Ts ctor index args s = Returns a s"
        unfolding s using T a w by (rule at_reuse)
      then show ?thesis using assms(1) by simp
    qed
  next
    case (Inr r)
    then obtain x where x: "0 < room h" "ctor (Ts ! index) args = Inr x"
      by (auto simp: new_TypeWrapper_def split: if_splits sum.splits)
    show ?thesis
    proof (cases "ptr v")
      case None
      show ?thesis
        using assms(1) T None x
          at_construct_empty [where ctor=ctor and T="Ts ! index" and args=args and x=x and v=v
            and h=h and Ts=Ts and index=index]
        by (auto simp: s wf_def cell_typed_def T None live_after_def peak_live_def
              live_from_append peak_from_append)
    next
      case (Some a)
      show ?thesis
      proof (cases "selected_type_field v = index")
        case True
        obtain w where w: "cells h a = Some w" "wrapped_type w = Ts ! index"
          using assms(1) T Some True by (auto simp: wf_def cell_typed_def s split: option.splits)
        have "at Ts ctor index args s = Returns a s"
          unfolding s using T Some True w by (rule at_reuse)
        then show ?thesis using assms(1) by simp
      next
        case False
        have fr: "a \<noteq> fresh h" using assms(1) Some by (auto simp: wf_def s)
        show ?thesis
          using assms(1) T Some False fr x
          at_construct_switch [where ctor=ctor and T="Ts ! index" and args=args and x=x and v=v
            and h=h and Ts=Ts and index=index and a=a]
          by (auto simp: s wf_def cell_typed_def T Some live_after_def peak_live_def
                live_from_append peak_from_append)
      qed
    qed
  qed
qed

lemma wf_at_const:
  assumes "wf Ts s" "index < length Ts"
  shows "after (at_const Ts index s) = Some s"
  using assms
  by (cases s)
     (auto simp: at_const_def object_ref_def wf_def cell_typed_def GetNthType_nth
        split: option.splits)

lemma wf_exec:
  assumes "wf Ts s" "compiles (length Ts) c"
  shows "\<exists>s'. exec Ts ctor c s = Some s' \<and> wf Ts s'"
proof (cases c)
  case (AtConstruct index args)
  then show ?thesis using assms wf_at [of Ts s index ctor args] by simp
next
  case (AtReadonly index)
  then show ?thesis using assms wf_at_const [of Ts s index] by simp
next
  case Clear
  then show ?thesis using assms(1) by (simp add: wf_clear)
next
  case IsInitialized
  then show ?thesis using assms(1) by simp
next
  case ActiveIndex
  then show ?thesis using assms(1) by simp
qed

lemma wf_run:
  assumes "wf Ts s" "\<forall>c \<in> set cs. compiles (length Ts) c"
  shows "\<exists>s'. run Ts ctor cs s = Some s' \<and> wf Ts s'"
  using assms
proof (induction cs arbitrary: s)
  case Nil
  then show ?case by simp
next
  case (Cons c cs)
  then obtain s1 where s1: "exec Ts ctor c s = Some s1" "wf Ts s1"
    using wf_exec [of Ts s c ctor] by auto
  then show ?case using Cons.IH [of s1] Cons.prems(2) by simp
qed

lemma run_compiles: "run Ts ctor cs s = Some s' \<Longrightarrow> \<forall>c \<in> set cs. compiles (length Ts) c"
proof (induction cs arbitrary: s)
  case Nil
  then show ?case by simp
next
  case (Cons c cs)
  then obtain s1 where s1: "exec Ts ctor c s = Some s1" "run Ts ctor cs s1 = Some s'"
    by (auto split: option.splits)
  have "compiles (length Ts) c"
    using s1(1) by (cases c) (auto simp: at_def at_const_def GetNthType_nth split: if_splits)
  then show ?case using Cons.IH [OF s1(2)] by simp
qed

subsection \<open>The instance states are reached and well-formed\<close>

lemma at_start_five: "at int_string construct 0 (IntArg 5) (start 2) = Returns 0 five"
  by (simp add: at_def GetNthType_nth int_string_def start_def default_variant_def empty_heap_def
        new_TypeWrapper_def reset_def object_ref_def five_def)

lemma at_start_hello:
  "at int_string construct 1 (CharsArg ''hello'') (start 1) = Returns 0 hello"
  by (simp add: at_def GetNthType_nth int_string_def start_def default_variant_def empty_heap_def
        new_TypeWrapper_def reset_def object_ref_def hello_def)

lemma five_reached: "run int_string construct [AtConstruct 0 (IntArg 5)] (start 2) = Some five"
  using at_start_five by simp

lemma hello_reached:
  "run int_string construct [AtConstruct 1 (CharsArg ''hello'')] (start 1) = Some hello"
  using at_start_hello by simp

lemma wf_five: "wf int_string five"
  by (simp add: wf_def cell_typed_def five_def GetNthType_nth int_string_def live_after_def
        peak_live_def)

lemma wf_hello: "wf int_string hello"
  by (simp add: wf_def cell_typed_def hello_def GetNthType_nth int_string_def live_after_def
        peak_live_def)

lemma hello_facts:
  "\<not> (initialized (fst hello) \<and> selected_type int_string (fst hello) = 0)"
  "initialized (fst hello) \<and> selected_type int_string (fst hello) = 1"
  "hello = (fst hello, snd hello)"
  by (simp_all add: hello_def initialized_def selected_type_def)

lemma five_facts:
  "\<not> (initialized (fst five) \<and> selected_type int_string (fst five) = 1)"
  "initialized (fst five) \<and> selected_type int_string (fst five) = 0"
  "five = (fst five, snd five)"
  by (simp_all add: five_def initialized_def selected_type_def)

lemma start_facts:
  "\<not> (initialized (fst (start r)) \<and> selected_type int_string (fst (start r)) = i)"
  "start r = (default_variant, empty_heap r)"
  by (simp_all add: start_def initialized_def default_variant_def)

lemma int_string_facts:
  "(0::nat) < length int_string" "(1::nat) < length int_string" "length int_string = 2"
  "int_string ! 0 = cpp_int" "int_string ! 1 = cpp_string"
  by (simp_all add: int_string_def)

subsection \<open>What a returning at tells about the states\<close>

lemma at_Returns_shape:
  assumes "at Ts ctor index args s = Returns p s1"
  shows "index < length Ts \<and> ptr (fst s1) = Some p \<and> selected_type_field (fst s1) = index
       \<and> (\<exists>w. cells (snd s1) p = Some w \<and> wrapped_type w = Ts ! index)"
  using assms
  by (cases s)
     (auto simp: at_def object_ref_def GetNthType_nth Let_def
        split: option.splits sum.splits prod.splits if_splits)

lemma at_Returns_constructed:
  assumes "at Ts ctor index args s = Returns p s1"
    "\<not> (initialized (fst s) \<and> selected_type Ts (fst s) = index)"
  shows "\<exists>x. ctor (Ts ! index) args = Inr x \<and> deref (snd s1) p = Some x"
  using assms
  by (cases s)
     (auto simp: at_def object_ref_def GetNthType_nth Let_def new_TypeWrapper_def reset_def
        delete_def deref_def initialized_def selected_type_def
        split: option.splits sum.splits prod.splits if_splits)

lemma at_Returns_reused:
  assumes "at Ts ctor index args s = Returns p s1"
    "initialized (fst s) \<and> selected_type Ts (fst s) = index"
  shows "s1 = s"
  using assms
  by (cases s)
     (auto simp: at_def object_ref_def GetNthType_nth Let_def initialized_def selected_type_def
        split: option.splits sum.splits prod.splits if_splits)

lemma wf_holding:
  assumes "wf Ts (v, h)" "initialized v" "selected_type Ts v = index"
  shows "\<exists>a w. ptr v = Some a \<and> selected_type_field v = index \<and> cells h a = Some w
           \<and> GetNthType index Ts = Some (wrapped_type w)"
  using assms
  by (auto simp: wf_def cell_typed_def initialized_def selected_type_def split: option.splits)

lemma at_const_after_at:
  assumes "at Ts ctor index args s = Returns p s1"
  shows "at_const Ts index s1 = Returns p s1"
proof -
  obtain v1 h1 where s1: "s1 = (v1, h1)" by (cases s1)
  from at_Returns_shape [OF assms] obtain w where
    "index < length Ts" "ptr v1 = Some p" "selected_type_field v1 = index"
    "cells h1 p = Some w" "wrapped_type w = Ts ! index"
    by (auto simp: s1)
  then show ?thesis
    by (simp add: s1 at_const_def object_ref_def GetNthType_nth)
qed

section \<open>The claims\<close>

text \<open>
  C9: for a valid index, when the construction of the new payload fails inside the
  non-const \<^verbatim>\<open>at\<close> (the allocation throws \<^verbatim>\<open>std::bad_alloc\<close> or the constructor of the
  type throws), the exception reaches the caller and the variant and the heap are exactly
  as before the call: the previous payload is still held under the previous index, or
  the variant is still empty.  Every exception that leaves \<^verbatim>\<open>at\<close> leaves the state
  untouched, and a failing \<^verbatim>\<open>new\<close> in a state that is not holding the index does
  leave as an exception.
\<close>

theorem at_failure_keeps_state:
  assumes "index < length Ts"
  shows "(\<forall>e s'. at Ts ctor index args s = Throws e s' \<longrightarrow> s' = s)
       \<and> (\<forall>e. \<not> (initialized (fst s) \<and> selected_type Ts (fst s) = index)
               \<and> new_TypeWrapper ctor (Ts ! index) args (snd s) = Inl e
             \<longrightarrow> at Ts ctor index args s = Throws e s)"
proof -
  have "GetNthType index Ts = Some (Ts ! index)"
    using assms by (simp add: GetNthType_nth)
  then have "\<not> (initialized (fst s) \<and> selected_type Ts (fst s) = index)
      \<Longrightarrow> new_TypeWrapper ctor (Ts ! index) args (snd s) = Inl e
      \<Longrightarrow> at Ts ctor index args s = Throws e s" for e
    by (cases s) (auto simp: at_def initialized_def selected_type_def)
  then show ?thesis
    using at_throws_same [of Ts ctor index args s] by blast
qed

theorem at_failure_keeps_state_witness:
  "(0::nat) < length int_string
   \<and> \<not> (initialized (fst hello) \<and> selected_type int_string (fst hello) = 0)
   \<and> new_TypeWrapper construct (int_string ! 0) (IntArg 42) (snd hello) = Inl bad_alloc
   \<and> at int_string construct 0 (IntArg 42) hello = Throws bad_alloc hello
   \<and> new_TypeWrapper construct (int_string ! 1) (FillArg 9 CHR ''x'') (snd five)
       = Inl (constructor_error ''length_error'')
   \<and> at int_string construct 1 (FillArg 9 CHR ''x'') five
       = Throws (constructor_error ''length_error'') five"
proof -
  have l: "(0::nat) < length int_string" "(1::nat) < length int_string"
    by (simp_all add: int_string_def)
  have h: "\<not> (initialized (fst hello) \<and> selected_type int_string (fst hello) = 0)"
    by (simp add: hello_def selected_type_def)
  have f: "\<not> (initialized (fst five) \<and> selected_type int_string (fst five) = 1)"
    by (simp add: five_def selected_type_def)
  have n: "new_TypeWrapper construct (int_string ! 0) (IntArg 42) (snd hello) = Inl bad_alloc"
    by (simp add: new_TypeWrapper_def hello_def)
  have m: "new_TypeWrapper construct (int_string ! 1) (FillArg 9 CHR ''x'') (snd five)
       = Inl (constructor_error ''length_error'')"
    by (simp add: new_TypeWrapper_def five_def int_string_def max_size_def)
  show ?thesis
    using l h f n m
      at_failure_keeps_state [OF l(1), of construct "IntArg 42" hello]
      at_failure_keeps_state [OF l(2), of construct "FillArg 9 CHR ''x''" five]
    by blast
qed

text \<open>
  C8: an index that is not below the number of types of the catalog has no type in the
  type list, and both \<^verbatim>\<open>at\<close> overloads instantiated at it are ill-formed: they do
  not compile, so no state and no exception results.  For an index below the number of
  types neither is ill-formed.
\<close>

theorem index_outside_catalog_ill_formed:
  "(GetNthType index Ts = None \<longleftrightarrow> length Ts \<le> index)
   \<and> (at Ts ctor index args s = IllFormed \<longleftrightarrow> length Ts \<le> index)
   \<and> (at_const Ts index s = IllFormed \<longleftrightarrow> length Ts \<le> index)"
  by (cases s)
     (auto simp: at_def at_const_def object_ref_def GetNthType_nth Let_def
        split: option.splits sum.splits prod.splits)

theorem index_outside_catalog_ill_formed_witness:
  "GetNthType 2 int_string = None
   \<and> at int_string construct 2 (IntArg 1) (start 1) = IllFormed
   \<and> at_const int_string 2 (start 1) = IllFormed
   \<and> GetNthType 1 int_string = Some cpp_string
   \<and> at_const int_string 1 hello = Returns 0 hello"
proof -
  have "length int_string \<le> 2" by (simp add: int_string_def)
  moreover have "GetNthType 1 int_string = Some cpp_string"
    by (simp add: GetNthType_def TypeList_def int_string_def)
  moreover have "at_const int_string 1 hello = Returns 0 hello"
    by (simp add: at_const_def GetNthType_nth int_string_def hello_def object_ref_def)
  ultimately show ?thesis
    using index_outside_catalog_ill_formed [of 2 int_string construct "IntArg 1" "start 1"]
    by simp
qed

text \<open>
  C1: when the variant already holds the index (in a well-formed state), the non-const
  \<^verbatim>\<open>at\<close> at that index returns the reference to the existing payload and leaves the
  variant and the heap exactly as they were: nothing is constructed or destroyed and
  the arguments are ignored.  Hence after \<^verbatim>\<open>at<index>(args1)\<close> has returned, a second
  \<^verbatim>\<open>at<index>(args2)\<close> returns the same reference in the same state; where the first
  call did construct (the variant was not holding the index), the payload read through
  the reference is still the one built from \<open>args1\<close>.
\<close>

theorem at_same_index_reuses:
  "(wf Ts (v, h) \<and> initialized v \<and> selected_type Ts v = index \<longrightarrow>
      (\<exists>a. ptr v = Some a \<and> at Ts ctor index args2 (v, h) = Returns a (v, h)))
   \<and> (at Ts ctor index args1 s = Returns p s1 \<longrightarrow>
        at Ts ctor index args2 s1 = Returns p s1
        \<and> (\<not> (initialized (fst s) \<and> selected_type Ts (fst s) = index) \<longrightarrow>
             (\<exists>x. ctor (Ts ! index) args1 = Inr x \<and> deref (snd s1) p = Some x)))"
proof (intro conjI impI)
  assume "wf Ts (v, h) \<and> initialized v \<and> selected_type Ts v = index"
  then obtain a w where "ptr v = Some a" "selected_type_field v = index" "cells h a = Some w"
    "GetNthType index Ts = Some (wrapped_type w)"
    using wf_holding [of Ts v h index] by blast
  then show "\<exists>a. ptr v = Some a \<and> at Ts ctor index args2 (v, h) = Returns a (v, h)"
    using at_reuse [of index Ts "wrapped_type w" v a h w ctor args2] by simp
next
  assume r: "at Ts ctor index args1 s = Returns p s1"
  obtain v1 h1 where s1: "s1 = (v1, h1)" by (cases s1)
  from at_Returns_shape [OF r] obtain w where
    "index < length Ts" "ptr v1 = Some p" "selected_type_field v1 = index"
    "cells h1 p = Some w" "wrapped_type w = Ts ! index"
    by (auto simp: s1)
  then show "at Ts ctor index args2 s1 = Returns p s1"
    unfolding s1 by (intro at_reuse) (simp_all add: GetNthType_nth)
next
  assume "at Ts ctor index args1 s = Returns p s1"
    "\<not> (initialized (fst s) \<and> selected_type Ts (fst s) = index)"
  then show "\<exists>x. ctor (Ts ! index) args1 = Inr x \<and> deref (snd s1) p = Some x"
    by (rule at_Returns_constructed)
qed

theorem at_same_index_reuses_witness:
  "wf int_string five \<and> initialized (fst five) \<and> selected_type int_string (fst five) = 0
   \<and> at int_string construct 0 (IntArg 9) five = Returns 0 five
   \<and> at int_string construct 0 (IntArg 5) (start 2) = Returns 0 five
   \<and> \<not> (initialized (fst (start 2)) \<and> selected_type int_string (fst (start 2)) = 0)
   \<and> construct (int_string ! 0) (IntArg 5) = Inr (IntVal 5)
   \<and> deref (snd five) 0 = Some (IntVal 5)"
proof -
  have a: "at int_string construct 0 (IntArg 5) (start 2) = Returns 0 five"
    by (rule at_start_five)
  have b: "\<not> (initialized (fst (start 2)) \<and> selected_type int_string (fst (start 2)) = 0)"
    by (simp add: start_def default_variant_def initialized_def)
  have c: "initialized (fst five) \<and> selected_type int_string (fst five) = 0"
    by (simp add: five_def initialized_def selected_type_def)
  have d: "ptr (fst five) = Some 0" by (simp add: five_def)
  show ?thesis
    using a b c d wf_five
      at_same_index_reuses [of int_string "fst five" "snd five" 0 construct "IntArg 9"
        "IntArg 5" "start 2" 0 five]
    by (auto simp: int_string_def)
qed

text \<open>
  C2: for a valid index, the const \<^verbatim>\<open>at\<close> throws exactly when the variant is not
  holding that index, that is unless \<^verbatim>\<open>initialized()\<close> is true and
  \<^verbatim>\<open>selected_type()\<close> is the index, and what it throws is the
  \<^verbatim>\<open>std::runtime_error\<close> of the header.  Whether it throws or returns, the variant and
  the heap are as before: nothing is constructed.  In particular it throws on a
  default-constructed variant, and at \<open>index\<close> after the non-const \<^verbatim>\<open>at\<close> has returned
  at another index \<open>j\<close>.  In a well-formed state holding the index it returns the
  reference to the payload.
\<close>

theorem at_const_strict:
  fixes h :: "('t, 'v) heap" and s :: "('t, 'v) state"
  assumes "index < length Ts"
  shows "((\<exists>e s'. at_const Ts index (v, h) = Throws e s') \<longleftrightarrow>
            \<not> (initialized v \<and> selected_type Ts v = index))
       \<and> (\<not> (initialized v \<and> selected_type Ts v = index) \<longrightarrow>
            at_const Ts index (v, h) = Throws (runtime_error const_access_message) (v, h))
       \<and> (\<forall>e r s'. at_const Ts index (v, h) = Throws e s' \<or> at_const Ts index (v, h) = Returns r s'
            \<longrightarrow> s' = (v, h))
       \<and> at_const Ts index (default_variant, h)
            = Throws (runtime_error const_access_message) (default_variant, h)
       \<and> (\<forall>j args p s1. j \<noteq> index \<and> at Ts ctor j args s = Returns p s1 \<longrightarrow>
            at_const Ts index s1 = Throws (runtime_error const_access_message) s1)
       \<and> (wf Ts (v, h) \<and> initialized v \<and> selected_type Ts v = index \<longrightarrow>
            (\<exists>a. ptr v = Some a \<and> at_const Ts index (v, h) = Returns a (v, h)))"
proof -
  have T: "GetNthType index Ts = Some (Ts ! index)"
    using assms by (simp add: GetNthType_nth)
  have throws: "at_const Ts index (v, h) = Throws (runtime_error const_access_message) (v, h)"
    if "\<not> (initialized v \<and> selected_type Ts v = index)" for v and h :: "('t, 'v) heap"
    using that T by (auto simp: at_const_def initialized_def selected_type_def)
  have only: "\<not> (initialized v \<and> selected_type Ts v = index)"
    if "at_const Ts index (v, h) = Throws e s'" for e s'
    using that T
    by (auto simp: at_const_def object_ref_def initialized_def selected_type_def
          split: option.splits if_splits)
  have same: "s' = (v, h)"
    if "at_const Ts index (v, h) = Throws e s' \<or> at_const Ts index (v, h) = Returns r s'"
    for e r s'
    using that by (rule at_const_same)
  have fresh_variant: "at_const Ts index (default_variant, h)
      = Throws (runtime_error const_access_message) (default_variant, h)"
    by (rule throws) (simp add: initialized_def default_variant_def)
  have other: "at_const Ts index s1 = Throws (runtime_error const_access_message) s1"
    if "j \<noteq> index \<and> at Ts ctor j args s = Returns p s1" for j args p s1
  proof -
    have "selected_type_field (fst s1) = j" "ptr (fst s1) = Some p"
      using at_Returns_shape [of Ts ctor j args s p s1] that by simp_all
    then have "\<not> (initialized (fst s1) \<and> selected_type Ts (fst s1) = index)"
      using that by (simp add: selected_type_def)
    then show ?thesis
      using throws [of "fst s1" "snd s1"] by simp
  qed
  have reads: "\<exists>a. ptr v = Some a \<and> at_const Ts index (v, h) = Returns a (v, h)"
    if held: "wf Ts (v, h) \<and> initialized v \<and> selected_type Ts v = index"
  proof -
    obtain a w where "ptr v = Some a" "selected_type_field v = index" "cells h a = Some w"
      "GetNthType index Ts = Some (wrapped_type w)"
      using held wf_holding [of Ts v h index] by blast
    then show ?thesis
      by (simp add: at_const_def object_ref_def)
  qed
  show ?thesis
    using throws [of v h] only same fresh_variant other reads by blast
qed

theorem at_const_strict_witness:
  "(0::nat) < length int_string
   \<and> \<not> (initialized (fst hello) \<and> selected_type int_string (fst hello) = 0)
   \<and> at_const int_string 0 hello = Throws (runtime_error const_access_message) hello
   \<and> at_const int_string 0 (start 1) = Throws (runtime_error const_access_message) (start 1)
   \<and> (1::nat) \<noteq> 0
   \<and> at int_string construct 1 (CharsArg ''hello'') (start 1) = Returns 0 hello
   \<and> wf int_string hello
   \<and> initialized (fst hello) \<and> selected_type int_string (fst hello) = 1
   \<and> at_const int_string 1 hello = Returns 0 hello"
proof -
  have p: "ptr (fst hello) = Some 0" by (simp add: hello_def)
  have w: "wf int_string (fst hello, snd hello)" using wf_hello by simp
  show ?thesis
    using p w wf_hello hello_facts int_string_facts(1,2) at_start_hello
      at_const_strict [where index=0 and Ts=int_string and v="fst hello" and h="snd hello"
        and s="start 1" and ctor=construct, OF int_string_facts(1)]
      at_const_strict [where index=0 and Ts=int_string and v=default_variant
        and h="empty_heap 1" and s="start 1" and ctor=construct, OF int_string_facts(1)]
      at_const_strict [where index=1 and Ts=int_string and v="fst hello" and h="snd hello"
        and s="start 1" and ctor=construct, OF int_string_facts(2)]
    by (simp add: start_def)
qed

text \<open>
  C5: whenever the non-const \<^verbatim>\<open>at<index>\<close> returns, from any state at all,
  \<^verbatim>\<open>selected_type()\<close> is \<open>index\<close> and \<^verbatim>\<open>initialized()\<close> is true in the state it
  leaves.  And it does return, for a valid index in a well-formed state, when the
  variant already holds the index or when the allocation and the constructor succeed.
\<close>

theorem at_sets_active_index:
  fixes s :: "('t, 'v) state" and h :: "('t, 'v) heap"
  shows "(at Ts ctor index args s = Returns p (v', h') \<longrightarrow>
      selected_type Ts v' = index \<and> initialized v')
   \<and> (index < length Ts \<and> wf Ts (v, h)
        \<and> (initialized v \<and> selected_type Ts v = index
            \<or> 0 < room h \<and> ctor (Ts ! index) args = Inr x) \<longrightarrow>
        (\<exists>p v' h'. at Ts ctor index args (v, h) = Returns p (v', h')
            \<and> selected_type Ts v' = index \<and> initialized v'))"
proof -
  have post: "selected_type Ts v' = index \<and> initialized v'"
    if "at Ts ctor index args s = Returns p (v', h')" for s p v' and h' :: "('t, 'v) heap"
    using at_Returns_shape [OF that] by (simp add: selected_type_def initialized_def)
  have returns: "\<exists>p v' h'. at Ts ctor index args (v, h) = Returns p (v', h')"
    if valid: "index < length Ts" and w: "wf Ts (v, h)"
      and ok: "initialized v \<and> selected_type Ts v = index
               \<or> 0 < room h \<and> ctor (Ts ! index) args = Inr x"
  proof (cases "initialized v \<and> selected_type Ts v = index")
    case True
    then obtain a w where "ptr v = Some a" "selected_type_field v = index" "cells h a = Some w"
      "GetNthType index Ts = Some (wrapped_type w)"
      using w wf_holding [of Ts v h index] by blast
    then show ?thesis
      using at_reuse [of index Ts "wrapped_type w" v a h w ctor args] by auto
  next
    case False
    then have x: "0 < room h" "ctor (Ts ! index) args = Inr x" using ok by auto
    have T: "GetNthType index Ts = Some (Ts ! index)"
      using valid by (simp add: GetNthType_nth)
    show ?thesis
    proof (cases "ptr v")
      case None
      then show ?thesis
        using T x at_construct_empty [where ctor=ctor and T="Ts ! index" and args=args and x=x
            and v=v and h=h and Ts=Ts and index=index]
        by auto
    next
      case (Some a)
      then have "selected_type_field v \<noteq> index" "a \<noteq> fresh h"
        using False w by (auto simp: initialized_def selected_type_def wf_def)
      then show ?thesis
        using T x Some at_construct_switch [where ctor=ctor and T="Ts ! index" and args=args
            and x=x and v=v and h=h and Ts=Ts and index=index and a=a]
        by auto
    qed
  qed
  show ?thesis using post returns by blast
qed

theorem at_sets_active_index_witness:
  "at int_string construct 0 (IntArg 5) (start 2) = Returns 0 (fst five, snd five)
   \<and> selected_type int_string (fst five) = 0 \<and> initialized (fst five)
   \<and> (1::nat) < length int_string \<and> wf int_string five
   \<and> 0 < room (snd five) \<and> construct (int_string ! 1) (CharsArg ''hello'') = Inr (StringVal ''hello'')
   \<and> (\<exists>p v' h'. at int_string construct 1 (CharsArg ''hello'') five = Returns p (v', h')
         \<and> selected_type int_string v' = 1 \<and> initialized v')"
proof -
  have a: "at int_string construct 0 (IntArg 5) (start 2) = Returns 0 (fst five, snd five)"
    using at_start_five by simp
  have r: "0 < room (snd five)" by (simp add: five_def)
  have c: "construct (int_string ! 1) (CharsArg ''hello'') = Inr (StringVal ''hello'')"
    by (simp add: int_string_def)
  have w: "wf int_string (fst five, snd five)" using wf_five by simp
  show ?thesis
    using a r c w wf_five int_string_facts(2)
      at_sets_active_index [where Ts=int_string and ctor=construct and index=0
        and args="IntArg 5" and s="start 2" and p=0 and v'="fst five" and h'="snd five"]
      at_sets_active_index [where Ts=int_string and ctor=construct and index=1
        and args="CharsArg ''hello''" and v="fst five" and h="snd five"
        and x="StringVal ''hello''"]
    by simp
qed

text \<open>
  C7, as amended: after the non-const \<^verbatim>\<open>at<index>(args)\<close> has returned, the const
  \<^verbatim>\<open>at<index>()\<close> returns too, with the same reference and without changing the
  state.  The payload read through it is the one constructed from \<open>args\<close> when the
  variant was not holding the index before the first call; when it was, the first call
  changed nothing and the payload is the one that was there already.  The claim as
  stated, that the value read is always the one the arguments produce, fails in a
  variant that holds the index: after \<^verbatim>\<open>at<0>(5)\<close>, the call \<^verbatim>\<open>at<0>(9)\<close> followed by
  the const \<^verbatim>\<open>at<0>()\<close> reads 5.
\<close>

theorem read_after_construct:
  assumes "at Ts ctor index args s = Returns p s1"
  shows "at_const Ts index s1 = Returns p s1
       \<and> (\<not> (initialized (fst s) \<and> selected_type Ts (fst s) = index) \<longrightarrow>
            (\<exists>x. ctor (Ts ! index) args = Inr x \<and> deref (snd s1) p = Some x))
       \<and> (initialized (fst s) \<and> selected_type Ts (fst s) = index \<longrightarrow>
            s1 = s \<and> deref (snd s1) p = deref (snd s) p)"
  using assms at_const_after_at [OF assms] at_Returns_constructed [OF assms]
    at_Returns_reused [OF assms]
  by blast

theorem read_after_construct_witness:
  "at int_string construct 1 (CharsArg ''hello'') (start 1) = Returns 0 hello
   \<and> \<not> (initialized (fst (start 1)) \<and> selected_type int_string (fst (start 1)) = 1)
   \<and> at_const int_string 1 hello = Returns 0 hello
   \<and> construct (int_string ! 1) (CharsArg ''hello'') = Inr (StringVal ''hello'')
   \<and> deref (snd hello) 0 = Some (StringVal ''hello'')
   \<and> at int_string construct 0 (IntArg 9) five = Returns 0 five
   \<and> initialized (fst five) \<and> selected_type int_string (fst five) = 0
   \<and> at_const int_string 0 five = Returns 0 five"
proof -
  have n: "at int_string construct 0 (IntArg 9) five = Returns 0 five"
    by (simp add: at_def GetNthType_nth int_string_def five_def object_ref_def)
  have c: "construct (int_string ! 1) (CharsArg ''hello'') = Inr (StringVal ''hello'')"
    by (simp add: int_string_def)
  show ?thesis
    using n c at_start_hello start_facts(1) [of 1 1] five_facts(2)
      read_after_construct [OF at_start_hello] read_after_construct [OF n]
    by auto
qed

theorem read_after_construct_counterexample:
  "at int_string construct 0 (IntArg 5) (start 2) = Returns 0 five
   \<and> at int_string construct 0 (IntArg 9) five = Returns 0 five
   \<and> at_const int_string 0 five = Returns 0 five
   \<and> deref (snd five) 0 = Some (IntVal 5)
   \<and> construct cpp_int (IntArg 9) = Inr (IntVal 9)
   \<and> IntVal 5 \<noteq> IntVal 9"
proof -
  have n: "at int_string construct 0 (IntArg 9) five = Returns 0 five"
    by (simp add: at_def GetNthType_nth int_string_def five_def object_ref_def)
  have c: "at_const int_string 0 five = Returns 0 five"
    by (simp add: at_const_def GetNthType_nth int_string_def five_def object_ref_def)
  have d: "deref (snd five) 0 = Some (IntVal 5)"
    by (simp add: deref_def five_def)
  show ?thesis
    using n c d at_start_five by simp
qed

text \<open>
  C6: \<^verbatim>\<open>clear()\<close> in any state leaves \<^verbatim>\<open>initialized()\<close> false and
  \<^verbatim>\<open>selected_type()\<close> equal to the number of types, and the const \<^verbatim>\<open>at\<close> then throws
  at every valid index.  The cell that was held is destroyed (it is no longer live and
  its destruction is logged), and in a well-formed state no cell is live afterwards.  A
  second \<^verbatim>\<open>clear()\<close> changes nothing, and neither does \<^verbatim>\<open>clear()\<close> on an empty variant.
\<close>

theorem clear_empties:
  "\<not> initialized (fst (clear s))
   \<and> selected_type Ts (fst (clear s)) = length Ts
   \<and> (\<forall>i < length Ts.
         at_const Ts i (clear s) = Throws (runtime_error const_access_message) (clear s))
   \<and> clear (clear s) = clear s
   \<and> (\<forall>a. ptr (fst s) = Some a \<longrightarrow>
         cells (snd (clear s)) a = None \<and> events (snd (clear s)) = events (snd s) @ [Destroyed a])
   \<and> (ptr (fst s) = None \<longrightarrow> clear s = s)
   \<and> (wf Ts s \<longrightarrow> cells (snd (clear s)) = Map.empty)"
proof -
  obtain v h where s: "s = (v, h)" by (cases s)
  have p: "ptr (fst (clear s)) = None"
    by (simp add: s clear_def reset_def)
  have 1: "\<not> initialized (fst (clear s))" "selected_type Ts (fst (clear s)) = length Ts"
    using p by (simp_all add: initialized_def selected_type_def)
  have 2: "at_const Ts i (clear s) = Throws (runtime_error const_access_message) (clear s)"
    if "i < length Ts" for i
    using that p by (cases "clear s") (simp add: at_const_def GetNthType_nth)
  have 3: "clear (clear s) = clear s"
    by (simp add: s clear_def reset_def)
  have 4: "cells (snd (clear s)) a = None \<and> events (snd (clear s)) = events (snd s) @ [Destroyed a]"
    if "ptr (fst s) = Some a" for a
    using that by (simp add: s clear_def reset_def delete_def)
  have 5: "clear s = s" if "ptr (fst s) = None"
    using that by (simp add: s clear_def reset_def)
  have 6: "cells (snd (clear s)) = Map.empty" if "wf Ts s"
    using wf_clear [OF that] p by (cases "clear s") (simp add: wf_def)
  show ?thesis using 1 2 3 4 5 6 by blast
qed

theorem clear_empties_witness:
  "ptr (fst five) = Some 0 \<and> wf int_string five
   \<and> \<not> initialized (fst (clear five)) \<and> selected_type int_string (fst (clear five)) = 2
   \<and> at_const int_string 0 (clear five) = Throws (runtime_error const_access_message) (clear five)
   \<and> at_const int_string 1 (clear five) = Throws (runtime_error const_access_message) (clear five)
   \<and> cells (snd (clear five)) = Map.empty
   \<and> events (snd (clear five)) = [Constructed 0, Destroyed 0]
   \<and> clear (clear five) = clear five
   \<and> ptr (fst (start 1)) = None \<and> clear (start 1) = start 1"
proof -
  have a: "ptr (fst five) = Some 0" "events (snd five) = [Constructed 0]"
    by (simp_all add: five_def)
  have b: "ptr (fst (start 1)) = None" by (simp add: start_def default_variant_def)
  show ?thesis
    using a b wf_five int_string_facts(1,2,3)
      clear_empties [of five int_string] clear_empties [of "start 1" int_string]
    by simp
qed

text \<open>
  C10: \<^verbatim>\<open>clear()\<close> leaves \<^verbatim>\<open>selected_type_\<close> as it was, yet the index that was active
  cannot be observed afterwards: \<^verbatim>\<open>selected_type()\<close> is the number of types, the const
  \<^verbatim>\<open>at\<close> throws at every valid index, and the non-const \<^verbatim>\<open>at\<close> at every valid index,
  the one active before the \<^verbatim>\<open>clear()\<close> included, constructs a new cell from its
  arguments (when allocation and constructor succeed) and returns the reference to it.
\<close>

theorem clear_forgets_index:
  "selected_type Ts (fst (clear s)) = length Ts
   \<and> (\<forall>i < length Ts.
         at_const Ts i (clear s) = Throws (runtime_error const_access_message) (clear s))
   \<and> (\<forall>i < length Ts. \<forall>args x.
         0 < room (snd (clear s)) \<and> ctor (Ts ! i) args = Inr x \<longrightarrow>
         (\<exists>v2 h2. at Ts ctor i args (clear s) = Returns (fresh (snd s)) (v2, h2)
             \<and> deref h2 (fresh (snd s)) = Some x
             \<and> events h2 = events (snd (clear s)) @ [Constructed (fresh (snd s))]
             \<and> selected_type Ts v2 = i))"
proof -
  obtain v h where s: "s = (v, h)" by (cases s)
  obtain v1 h1 where c: "clear s = (v1, h1)" by (cases "clear s")
  have p: "ptr v1 = None" "fresh (snd s) = fresh h1"
    using c by (auto simp: s clear_def reset_def delete_def split: option.splits)
  have 1: "selected_type Ts (fst (clear s)) = length Ts"
    using p by (simp add: c selected_type_def)
  have 2: "at_const Ts i (clear s) = Throws (runtime_error const_access_message) (clear s)"
    if "i < length Ts" for i
    using that p by (simp add: c at_const_def GetNthType_nth)
  have 3: "\<exists>v2 h2. at Ts ctor i args (clear s) = Returns (fresh (snd s)) (v2, h2)
             \<and> deref h2 (fresh (snd s)) = Some x
             \<and> events h2 = events (snd (clear s)) @ [Constructed (fresh (snd s))]
             \<and> selected_type Ts v2 = i"
    if "i < length Ts" "0 < room (snd (clear s)) \<and> ctor (Ts ! i) args = Inr x" for i args x
  proof -
    have T: "GetNthType i Ts = Some (Ts ! i)"
      using that(1) by (simp add: GetNthType_nth)
    have x: "0 < room h1" "ctor (Ts ! i) args = Inr x" using that(2) by (simp_all add: c)
    show ?thesis
      using p at_construct_empty [where ctor=ctor and T="Ts ! i" and args=args and x=x
          and v=v1 and h=h1 and Ts=Ts and index=i, OF T p(1) x]
      by (simp add: c deref_def selected_type_def)
  qed
  show ?thesis using 1 2 3 by blast
qed

theorem clear_forgets_index_witness:
  "selected_type int_string (fst five) = 0
   \<and> selected_type int_string (fst (clear five)) = 2
   \<and> at_const int_string 0 (clear five) = Throws (runtime_error const_access_message) (clear five)
   \<and> (0::nat) < length int_string \<and> 0 < room (snd (clear five))
   \<and> construct (int_string ! 0) (IntArg 9) = Inr (IntVal 9)
   \<and> (\<exists>v2 h2. at int_string construct 0 (IntArg 9) (clear five) = Returns 1 (v2, h2)
         \<and> deref h2 1 = Some (IntVal 9)
         \<and> events h2 = [Constructed 0, Destroyed 0, Constructed 1]
         \<and> selected_type int_string v2 = 0)"
proof -
  have a: "fresh (snd five) = 1" "0 < room (snd (clear five))"
    "events (snd (clear five)) = [Constructed 0, Destroyed 0]"
    by (simp_all add: five_def clear_def reset_def delete_def)
  have b: "construct (int_string ! 0) (IntArg 9) = Inr (IntVal 9)"
    by (simp add: int_string_def)
  show ?thesis
    using a b five_facts(2) int_string_facts(1,3)
      clear_forgets_index [of int_string five construct]
    by simp
qed

text \<open>
  C3: every sequence of calls that compiles, run from a default-constructed variant on
  an empty heap, ends in a state (no call in it has undefined behaviour) in which: if
  \<^verbatim>\<open>ptr\<close> is null, \<^verbatim>\<open>selected_type()\<close> reports the number of types; and if \<^verbatim>\<open>ptr\<close>
  owns a cell, the cell is live, \<^verbatim>\<open>selected_type()\<close> is a valid index, and the type
  at that index is the type the cell wraps.  Calls that throw are part of the
  sequences: the run goes on from the state at the throw.
\<close>

theorem discriminant_matches_cell:
  assumes "\<forall>c \<in> set cs. compiles (length Ts) c"
  shows "\<exists>v h. run Ts ctor cs (default_variant, empty_heap r) = Some (v, h)
       \<and> (ptr v = None \<longrightarrow> selected_type Ts v = length Ts)
       \<and> (\<forall>a. ptr v = Some a \<longrightarrow>
            (\<exists>w. cells h a = Some w \<and> selected_type Ts v < length Ts
               \<and> GetNthType (selected_type Ts v) Ts = Some (wrapped_type w)))"
proof -
  obtain s' where s': "run Ts ctor cs (default_variant, empty_heap r) = Some s'" "wf Ts s'"
    using wf_run [OF wf_start assms] by blast
  obtain v h where vh: "s' = (v, h)" by (cases s')
  have "selected_type Ts v = length Ts" if "ptr v = None"
    using that by (simp add: selected_type_def)
  moreover have "\<exists>w. cells h a = Some w \<and> selected_type Ts v < length Ts
      \<and> GetNthType (selected_type Ts v) Ts = Some (wrapped_type w)" if "ptr v = Some a" for a
    using that s'(2)
    by (auto simp: vh wf_def cell_typed_def selected_type_def GetNthType_Some
          split: option.splits)
  ultimately show ?thesis
    using s'(1) unfolding vh by (intro exI [of _ v] exI [of _ h]) simp
qed

theorem discriminant_matches_cell_witness:
  "list_all (compiles (length int_string))
     [AtConstruct 1 (CharsArg ''hello''), AtReadonly 0, IsInitialized,
      AtConstruct 0 (IntArg 42), ActiveIndex, AtConstruct 1 (FillArg 9 CHR ''x''), Clear,
      AtConstruct 0 (IntArg 7)]
   \<and> (\<exists>v h. run int_string construct
         [AtConstruct 1 (CharsArg ''hello''), AtReadonly 0, IsInitialized,
          AtConstruct 0 (IntArg 42), ActiveIndex, AtConstruct 1 (FillArg 9 CHR ''x''), Clear,
          AtConstruct 0 (IntArg 7)]
         (default_variant, empty_heap 2) = Some (v, h)
       \<and> v = \<lparr>ptr = Some 2, selected_type_field = 0\<rparr>
       \<and> selected_type int_string v = 0
       \<and> (\<exists>w. cells h 2 = Some w \<and> GetNthType 0 int_string = Some (wrapped_type w)))"
proof -
  let ?cs = "[AtConstruct 1 (CharsArg ''hello''), AtReadonly 0, IsInitialized,
      AtConstruct 0 (IntArg 42), ActiveIndex, AtConstruct 1 (FillArg 9 CHR ''x''), Clear,
      AtConstruct 0 (IntArg 7)]"
  have c: "\<forall>c \<in> set ?cs. compiles (length int_string) c"
    by (simp add: int_string_def)
  have e: "map_option fst (run int_string construct ?cs (default_variant, empty_heap 2))
      = Some \<lparr>ptr = Some 2, selected_type_field = 0\<rparr>"
    by (simp add: at_def at_const_def clear_def GetNthType_nth int_string_def
          default_variant_def empty_heap_def new_TypeWrapper_def reset_def delete_def
          object_ref_def max_size_def)
  from discriminant_matches_cell [OF c, of construct 2] obtain v h where
    r: "run int_string construct ?cs (default_variant, empty_heap 2) = Some (v, h)"
    and t: "\<forall>a. ptr v = Some a \<longrightarrow>
            (\<exists>w. cells h a = Some w \<and> selected_type int_string v < length int_string
               \<and> GetNthType (selected_type int_string v) int_string = Some (wrapped_type w))"
    by blast
  have v: "v = \<lparr>ptr = Some 2, selected_type_field = 0\<rparr>"
    using e r by simp
  then have s: "selected_type int_string v = 0" "ptr v = Some 2"
    by (simp_all add: selected_type_def)
  then have "\<exists>w. cells h 2 = Some w \<and> GetNthType 0 int_string = Some (wrapped_type w)"
    using t by auto
  then show ?thesis
    using c r v s(1) by (simp add: list_all_iff)
qed

text \<open>
  C4, as amended: when the non-const \<^verbatim>\<open>at<j>(b)\<close> is called in a well-formed state
  holding \<open>i \<noteq> j\<close> and allocation and constructor succeed, the new cell is
  constructed first, while the old one is still live, and the old cell is destroyed
  after that, inside \<^verbatim>\<open>reset\<close>, before the call returns.  One payload is live before
  the call, two between the two events, one (the new one, of the type at \<open>j\<close>) on
  return; never more than two.  The claim as stated, that the new payload is never live
  while the old one is, fails: the argument \<^verbatim>\<open>new NthTypeWrapper<index>(args...)\<close> is
  evaluated before \<^verbatim>\<open>reset\<close> runs.
\<close>

theorem switch_constructs_then_destroys:
  fixes h :: "('t, 'v) heap"
  assumes "wf Ts (v, h)" "initialized v" "selected_type Ts v = i" "i \<noteq> j" "j < length Ts"
    "0 < room h" "ctor (Ts ! j) b = Inr x"
  shows "\<exists>a v' h'. ptr v = Some a \<and> dom (cells h) = {a}
       \<and> at Ts ctor j b (v, h) = Returns (fresh h) (v', h')
       \<and> fresh h \<noteq> a
       \<and> events h' = events h @ [Constructed (fresh h), Destroyed a]
       \<and> live_after (events h) = [a]
       \<and> live_after (events h @ [Constructed (fresh h)]) = [fresh h, a]
       \<and> live_after (events h') = [fresh h]
       \<and> peak_live (events h') \<le> 2
       \<and> cells h' a = None
       \<and> cells h' (fresh h) = Some (TypeWrapper (Ts ! j) x)
       \<and> dom (cells h') = {fresh h}
       \<and> selected_type Ts v' = j"
proof -
  obtain a where a: "ptr v = Some a" "selected_type_field v = i"
    using assms(2,3) by (auto simp: initialized_def selected_type_def)
  have w: "dom (cells h) = {a}" "a < fresh h" "live_after (events h) = [a]"
    "peak_live (events h) \<le> 2"
    using assms(1) a by (simp_all add: wf_def)
  have T: "GetNthType j Ts = Some (Ts ! j)"
    using assms(5) by (simp add: GetNthType_nth)
  have n: "selected_type_field v \<noteq> j" "a \<noteq> fresh h"
    using a assms(4) w(2) by simp_all
  note r = at_construct_switch [where ctor=ctor and T="Ts ! j" and args=b and x=x and v=v
      and h=h and Ts=Ts and index=j and a=a, OF T a(1) n assms(6,7)]
  have d: "{fresh h, a} - {a} = {fresh h}" using n(2) by auto
  show ?thesis
    using a(1) w n(2) d
    by (simp add: r selected_type_def live_after_def peak_live_def live_from_append
          peak_from_append)
qed

theorem switch_constructs_then_destroys_witness:
  "wf int_string five \<and> initialized (fst five) \<and> selected_type int_string (fst five) = 0
   \<and> (0::nat) \<noteq> 1 \<and> (1::nat) < length int_string \<and> 0 < room (snd five)
   \<and> construct (int_string ! 1) (CharsArg ''hello'') = Inr (StringVal ''hello'')
   \<and> (\<exists>v' h'. at int_string construct 1 (CharsArg ''hello'') five = Returns 1 (v', h')
        \<and> events h' = [Constructed 0, Constructed 1, Destroyed 0]
        \<and> live_after [Constructed 0, Constructed 1] = [1, 0]
        \<and> live_after (events h') = [1]
        \<and> cells h' 0 = None
        \<and> cells h' 1 = Some (TypeWrapper cpp_string (StringVal ''hello''))
        \<and> dom (cells h') = {1}
        \<and> selected_type int_string v' = 1)"
proof -
  have w: "wf int_string (fst five, snd five)" using wf_five by simp
  have f: "ptr (fst five) = Some 0" "fresh (snd five) = 1" "0 < room (snd five)"
    "events (snd five) = [Constructed 0]"
    by (simp_all add: five_def)
  have c: "construct (int_string ! 1) (CharsArg ''hello'') = Inr (StringVal ''hello'')"
    by (simp add: int_string_def)
  have n: "(0::nat) \<noteq> 1" by simp
  show ?thesis
    using wf_five f c five_facts(2) int_string_facts(2,5)
      switch_constructs_then_destroys [where Ts=int_string and v="fst five" and h="snd five"
        and i=0 and j=1 and ctor=construct and b="CharsArg ''hello''"
        and x="StringVal ''hello''"]
    by (auto simp: live_after_def)
qed

theorem one_payload_live_counterexample:
  "wf int_string five \<and> initialized (fst five) \<and> selected_type int_string (fst five) = 0
   \<and> map_option (events \<circ> snd) (after (at int_string construct 1 (CharsArg ''hello'') five))
       = Some [Constructed 0, Constructed 1, Destroyed 0]
   \<and> live_after [Constructed 0, Constructed 1] = [1, 0]
   \<and> \<not> peak_live [Constructed 0, Constructed 1, Destroyed 0] \<le> 1"
proof -
  have "at int_string construct 1 (CharsArg ''hello'') five =
      Returns 1 (\<lparr>ptr = Some 1, selected_type_field = 1\<rparr>,
        \<lparr>cells = ([0 \<mapsto> TypeWrapper cpp_int (IntVal 5),
                   1 \<mapsto> TypeWrapper cpp_string (StringVal ''hello'')])(0 := None),
         fresh = 2, room = 1, events = [Constructed 0, Constructed 1, Destroyed 0]\<rparr>)"
    by (simp add: at_def GetNthType_nth int_string_def five_def new_TypeWrapper_def reset_def
          delete_def object_ref_def)
  then show ?thesis
    using wf_five five_facts(2) by (simp add: live_after_def peak_live_def)
qed

end
